theory Spec2Isabelle
  imports Complex_Main "HOL-Library.Word" "HOL-Library.Log_Nat"
begin

section \<open>The calculator of \<open>calculator.cpp\<close>\<close>

text \<open>
  The program reads a selector and two operands from standard input, performs one of four
  arithmetic operations on \<open>double\<close> values and writes the result or a diagnostic to
  standard output. The embedding has three layers:
  \<^item> the values of the C++ type \<open>double\<close> with the arithmetic of IEEE 754 binary64
    (round to nearest, ties to even);
  \<^item> the two standard streams: \<open>cin\<close> as the unread characters and the fail bit,
    \<open>cout\<close> as the sequence of insertions made with \<open><<\<close>;
  \<^item> the five functions of the source: \<open>add\<close>, \<open>subtract\<close>, \<open>multiply\<close>,
    \<open>divide\<close> and \<open>main\<close>.
\<close>

subsection \<open>Values of type \<open>double\<close>\<close>

text \<open>
  A \<open>double\<close> is a signed finite value, a signed infinity or a NaN. A finite value is kept
  as its sign bit (\<open>True\<close> for negative) and its magnitude, an exact rational, so that the two
  zeros \<open>Finite False 0\<close> and \<open>Finite True 0\<close> are different values. Sign and payload of a
  NaN are not modelled.
\<close>

datatype double = Finite bool rat | Infinity bool | NaN

definition pow2 :: "int \<Rightarrow> rat" where
  "pow2 e = (if 0 \<le> e then 2 ^ nat e else 1 / 2 ^ nat (- e))"

text \<open>
  \<open>ilog2 q\<close> is the integer \<open>k\<close> with \<open>2^k \<le> q < 2^(k+1)\<close>, for \<open>q > 0\<close>. From 1 on it is
  the bit length of the integer part, less one; below 1 it is the least \<open>m\<close> with
  \<open>1 / q \<le> 2^m\<close>, negated.
\<close>

definition ilog2 :: "rat \<Rightarrow> int" where
  "ilog2 q =
     (if 1 \<le> q then int (floorlog 2 (nat \<lfloor>q\<rfloor>)) - 1
      else - int (floorlog 2 (nat (\<lceil>1 / q\<rceil> - 1))))"

definition round_half_even :: "rat \<Rightarrow> int" where
  "round_half_even x =
     (let f = \<lfloor>x\<rfloor>; d = x - of_int f
      in if d < 1 / 2 then f
         else if 1 / 2 < d then f + 1
         else if even f then f else f + 1)"

text \<open>
  Rounding of an exact magnitude \<open>q \<ge> 0\<close> with sign \<open>s\<close> to binary64: 53 bits of
  significand, least exponent \<open>-1074\<close> (subnormal numbers), overflow to infinity from
  \<open>2^1024\<close> on.
\<close>

definition round_double :: "bool \<Rightarrow> rat \<Rightarrow> double" where
  "round_double s q =
     (if q = 0 then Finite s 0
      else let e = max (ilog2 q - 52) (- 1074);
               m = round_half_even (q / pow2 e);
               r = of_int m * pow2 e
           in if pow2 1024 \<le> r then Infinity s else Finite s r)"

definition signed_val :: "bool \<Rightarrow> rat \<Rightarrow> rat" where
  "signed_val s q = (if s then - q else q)"

fun fneg :: "double \<Rightarrow> double" where
  "fneg NaN = NaN"
| "fneg (Infinity s) = Infinity (\<not> s)"
| "fneg (Finite s x) = Finite (\<not> s) x"

text \<open>The operator \<open>+\<close> on \<open>double\<close>. An exact sum of zero is \<open>+0\<close> unless both operands
  are negative zeros.\<close>

fun fadd :: "double \<Rightarrow> double \<Rightarrow> double" where
  "fadd NaN _ = NaN"
| "fadd _ NaN = NaN"
| "fadd (Infinity s) (Infinity t) = (if s = t then Infinity s else NaN)"
| "fadd (Infinity s) (Finite _ _) = Infinity s"
| "fadd (Finite _ _) (Infinity t) = Infinity t"
| "fadd (Finite s x) (Finite t y) =
     (let r = signed_val s x + signed_val t y
      in if r = 0 then Finite (s \<and> t) 0 else round_double (r < 0) \<bar>r\<bar>)"

text \<open>The operator \<open>-\<close> on \<open>double\<close>.\<close>

definition fsub :: "double \<Rightarrow> double \<Rightarrow> double" where
  "fsub a b = fadd a (fneg b)"

text \<open>The operator \<open>*\<close> on \<open>double\<close>.\<close>

fun fmul :: "double \<Rightarrow> double \<Rightarrow> double" where
  "fmul NaN _ = NaN"
| "fmul _ NaN = NaN"
| "fmul (Infinity s) (Infinity t) = Infinity (s \<noteq> t)"
| "fmul (Infinity s) (Finite t y) = (if y = 0 then NaN else Infinity (s \<noteq> t))"
| "fmul (Finite s x) (Infinity t) = (if x = 0 then NaN else Infinity (s \<noteq> t))"
| "fmul (Finite s x) (Finite t y) = round_double (s \<noteq> t) (x * y)"

text \<open>The operator \<open>/\<close> on \<open>double\<close>. Division by a zero is defined: it gives a NaN for
  \<open>0 / 0\<close> and a signed infinity otherwise.\<close>

fun fdiv :: "double \<Rightarrow> double \<Rightarrow> double" where
  "fdiv NaN _ = NaN"
| "fdiv _ NaN = NaN"
| "fdiv (Infinity s) (Infinity t) = NaN"
| "fdiv (Infinity s) (Finite t y) = Infinity (s \<noteq> t)"
| "fdiv (Finite s x) (Infinity t) = Finite (s \<noteq> t) 0"
| "fdiv (Finite s x) (Finite t y) =
     (if y = 0 then (if x = 0 then NaN else Infinity (s \<noteq> t))
      else round_double (s \<noteq> t) (x / y))"

text \<open>The operator \<open>==\<close> on \<open>double\<close>: a NaN equals nothing, the two zeros are equal.\<close>

fun feq :: "double \<Rightarrow> double \<Rightarrow> bool" where
  "feq NaN _ = False"
| "feq _ NaN = False"
| "feq (Infinity s) (Infinity t) = (s = t)"
| "feq (Infinity s) (Finite _ _) = False"
| "feq (Finite _ _) (Infinity t) = False"
| "feq (Finite s x) (Finite t y) = (signed_val s x = signed_val t y)"

text \<open>The conversion of an \<open>int\<close> to \<open>double\<close>, exact for 32-bit values; the literal \<open>0\<close>
  of \<open>num2 == 0\<close> becomes \<open>+0.0\<close>.\<close>

definition double_of_int :: "int \<Rightarrow> double" where
  "double_of_int i = round_double (i < 0) (of_int \<bar>i\<bar>)"

definition is_finite :: "double \<Rightarrow> bool" where
  "is_finite d = (case d of Finite _ _ \<Rightarrow> True | _ \<Rightarrow> False)"

definition DBL_MAX :: rat where
  "DBL_MAX = (2 ^ 53 - 1) * 2 ^ 971"

subsection \<open>Standard input\<close>

text \<open>
  \<open>cin\<close> is the characters not yet read and the fail bit. The two extraction operators
  follow the formatted input of the standard library in the "C" locale with decimal
  notation: a set fail bit makes the extraction a no-op, leading white space is skipped, the
  longest prefix that can start a number is consumed, and the variable receives the value.
  When the input ends before a number starts, the variable is left as it was; when the
  characters consumed are not a number it receives 0; when the number is out of range it
  receives the nearest limit. All three set the fail bit.
\<close>

record istream =
  buf :: string
  failbit :: bool

definition isspace :: "char \<Rightarrow> bool" where
  "isspace c = (c = CHR '' '' \<or> (9 \<le> (of_char c :: nat) \<and> (of_char c :: nat) \<le> 13))"

definition isdigit :: "char \<Rightarrow> bool" where
  "isdigit c = (48 \<le> (of_char c :: nat) \<and> (of_char c :: nat) \<le> 57)"

definition decimal :: "string \<Rightarrow> int" where
  "decimal ds = foldl (\<lambda>a c. 10 * a + (of_char c - 48)) 0 ds"

text \<open>An optional sign: whether it is a minus, and the characters after it.\<close>

definition get_sign :: "string \<Rightarrow> bool \<times> string" where
  "get_sign b =
     (case b of
        [] \<Rightarrow> (False, [])
      | c # cs \<Rightarrow> if c = CHR ''-'' then (True, cs)
                  else if c = CHR ''+'' then (False, cs)
                  else (False, b))"

text \<open>\<open>cin >> choice\<close> for \<open>int choice\<close>.\<close>

definition extract_int :: "istream \<Rightarrow> 32 word \<Rightarrow> istream \<times> 32 word" where
  "extract_int s v =
     (if failbit s then (s, v)
      else let b = dropWhile isspace (buf s)
      in if b = [] then (\<lparr>buf = [], failbit = True\<rparr>, v)
      else let (neg, b1) = get_sign b;
               ds = takeWhile isdigit b1;
               rest = dropWhile isdigit b1;
               n = (if neg then - decimal ds else decimal ds)
      in if ds = [] then (\<lparr>buf = rest, failbit = True\<rparr>, 0)
         else if n < - (2 ^ 31) then (\<lparr>buf = rest, failbit = True\<rparr>, word_of_int (- (2 ^ 31)))
         else if 2 ^ 31 - 1 < n then (\<lparr>buf = rest, failbit = True\<rparr>, word_of_int (2 ^ 31 - 1))
         else (\<lparr>buf = rest, failbit = False\<rparr>, word_of_int n))"

text \<open>
  The characters of a floating-point field after its sign: integer digits, an optional
  point with fraction digits and, once a digit has been seen, an optional exponent
  (\<open>e\<close> or \<open>E\<close>, an optional sign, digits). The result is the integer digits, the
  fraction digits, the exponent part when the letter was consumed, and the characters left.
\<close>

definition scan_float :: "string \<Rightarrow> string \<times> string \<times> (bool \<times> string) option \<times> string" where
  "scan_float b =
     (let ip = takeWhile isdigit b; b1 = dropWhile isdigit b;
          (fp, b2) = (case b1 of
                        c # cs \<Rightarrow> if c = CHR ''.'' then (takeWhile isdigit cs, dropWhile isdigit cs)
                                   else ([], b1)
                      | [] \<Rightarrow> ([], b1))
      in case b2 of
           c # cs \<Rightarrow>
             if (c = CHR ''e'' \<or> c = CHR ''E'') \<and> ip @ fp \<noteq> []
             then let (eneg, b3) = get_sign cs
                  in (ip, fp, Some (eneg, takeWhile isdigit b3), dropWhile isdigit b3)
             else (ip, fp, None, b2)
         | [] \<Rightarrow> (ip, fp, None, b2))"

text \<open>The exact value of a scanned field, when it is a number.\<close>

definition field_value :: "string \<Rightarrow> string \<Rightarrow> (bool \<times> string) option \<Rightarrow> rat option" where
  "field_value ip fp ex =
     (if ip @ fp = [] then None
      else let m = of_int (decimal (ip @ fp)) / 10 ^ length fp
      in case ex of
           None \<Rightarrow> Some m
         | Some (eneg, ds) \<Rightarrow>
             if ds = [] then None
             else if eneg then Some (m / 10 ^ nat (decimal ds))
             else Some (m * 10 ^ nat (decimal ds)))"

text \<open>\<open>cin >> num\<close> for \<open>double num\<close>.\<close>

definition extract_double :: "istream \<Rightarrow> double \<Rightarrow> istream \<times> double" where
  "extract_double s v =
     (if failbit s then (s, v)
      else let b = dropWhile isspace (buf s)
      in if b = [] then (\<lparr>buf = [], failbit = True\<rparr>, v)
      else let (neg, b1) = get_sign b;
               (ip, fp, ex, rest) = scan_float b1
      in case field_value ip fp ex of
           None \<Rightarrow> (\<lparr>buf = rest, failbit = True\<rparr>, Finite False 0)
         | Some q \<Rightarrow>
             (case round_double neg q of
                Finite sg r \<Rightarrow> (\<lparr>buf = rest, failbit = False\<rparr>, Finite sg r)
              | _ \<Rightarrow> (\<lparr>buf = rest, failbit = True\<rparr>, Finite neg DBL_MAX)))"

subsection \<open>Standard output\<close>

text \<open>
  \<open>cout\<close> is the sequence of insertions made so far: a string, a \<open>double\<close> (whose
  decimal text the library makes) or the manipulator \<open>endl\<close>, which ends the line.
\<close>

datatype out_item = Text string | Number double | Endl

type_synonym ostream = "out_item list"

definition put_str :: "string \<Rightarrow> ostream \<Rightarrow> ostream" where
  "put_str s os = os @ [Text s]"

definition put_double :: "double \<Rightarrow> ostream \<Rightarrow> ostream" where
  "put_double d os = os @ [Number d]"

definition endl :: "ostream \<Rightarrow> ostream" where
  "endl os = os @ [Endl]"

subsection \<open>The arithmetic functions\<close>

text \<open>An exception of class \<open>runtime_error\<close> with the text that \<open>what()\<close> returns.\<close>

datatype runtime_error = Runtime_error (what: string)

definition add :: "double \<Rightarrow> double \<Rightarrow> ostream \<Rightarrow> ostream" where
  "add num1 num2 os = endl (put_double (fadd num1 num2) (put_str ''Result: '' os))"

definition subtract :: "double \<Rightarrow> double \<Rightarrow> ostream \<Rightarrow> ostream" where
  "subtract num1 num2 os = endl (put_double (fsub num1 num2) (put_str ''Result: '' os))"

definition multiply :: "double \<Rightarrow> double \<Rightarrow> ostream \<Rightarrow> ostream" where
  "multiply num1 num2 os = endl (put_double (fmul num1 num2) (put_str ''Result: '' os))"

text \<open>\<open>divide\<close> either returns normally (\<open>Inr\<close>) or throws (\<open>Inl\<close>); in both cases the
  second component is \<open>cout\<close> as the function leaves it.\<close>

definition divide :: "double \<Rightarrow> double \<Rightarrow> ostream \<Rightarrow> (runtime_error + unit) \<times> ostream" where
  "divide num1 num2 os =
     (if feq num2 (double_of_int 0)
      then (Inl (Runtime_error ''Error! Division by zero.''), os)
      else (Inr (), endl (put_double (fdiv num1 num2) (put_str ''Result: '' os))))"

subsection \<open>The main function\<close>

text \<open>The \<open>switch\<close> statement of \<open>main\<close>, inside the \<open>try\<close> block.\<close>

definition dispatch ::
  "32 word \<Rightarrow> double \<Rightarrow> double \<Rightarrow> ostream \<Rightarrow> (runtime_error + unit) \<times> ostream" where
  "dispatch choice num1 num2 os =
     (if choice = 1 then (Inr (), add num1 num2 os)
      else if choice = 2 then (Inr (), subtract num1 num2 os)
      else if choice = 3 then (Inr (), multiply num1 num2 os)
      else if choice = 4 then divide num1 num2 os
      else (Inr (), endl (put_str ''Invalid choice'' os)))"

text \<open>The \<open>try\<close> statement: the handler writes the text of the exception.\<close>

definition try_dispatch :: "32 word \<Rightarrow> double \<Rightarrow> double \<Rightarrow> ostream \<Rightarrow> ostream" where
  "try_dispatch choice num1 num2 os =
     (case dispatch choice num1 num2 os of
        (Inr _, os') \<Rightarrow> os'
      | (Inl e, os') \<Rightarrow> endl (put_str (what e) os'))"

text \<open>The local variables of \<open>main\<close>. They are declared without initialiser, so a run
  starts with arbitrary contents.\<close>

record frame =
  choice :: "32 word"
  num1 :: double
  num2 :: double

text \<open>What a run leaves behind: the exit code, standard output and standard input.\<close>

record outcome =
  exit_code :: int
  stdout :: ostream
  stdin :: istream

definition banner :: "ostream \<Rightarrow> ostream" where
  "banner os =
     endl (put_str ''4. Divide''
       (endl (put_str ''3. Multiply''
         (endl (put_str ''2. Subtract''
           (endl (put_str ''1. Add''
             (endl (put_str ''Select operation:'' os)))))))))"

definition main :: "frame \<Rightarrow> string \<Rightarrow> outcome" where
  "main fr input =
     (let cin0 = \<lparr>buf = input, failbit = False\<rparr>;
          os1 = put_str ''Enter choice (1/2/3/4): '' (banner []);
          (cin1, choice) = extract_int cin0 (choice fr)
      in if failbit cin1 \<or> sint choice < 1 \<or> sint choice > 4
         then \<lparr>exit_code = 1, stdout = endl (put_str ''Invalid input'' os1), stdin = cin1\<rparr>
         else let os2 = put_str ''Enter first number: '' os1;
                  (cin2, num1) = extract_double cin1 (num1 fr)
         in if failbit cin2
            then \<lparr>exit_code = 1, stdout = endl (put_str ''Invalid input'' os2), stdin = cin2\<rparr>
            else let os3 = put_str ''Enter second number: '' os2;
                     (cin3, num2) = extract_double cin2 (num2 fr)
            in if failbit cin3
               then \<lparr>exit_code = 1, stdout = endl (put_str ''Invalid input'' os3), stdin = cin3\<rparr>
               else \<lparr>exit_code = 0, stdout = try_dispatch choice num1 num2 os3, stdin = cin3\<rparr>)"

subsection \<open>Vocabulary of the properties\<close>

text \<open>\<open>cin\<close> at the start of a run: the whole input unread, no fail bit.\<close>

definition cin_start :: "string \<Rightarrow> istream" where
  "cin_start input = \<lparr>buf = input, failbit = False\<rparr>"

text \<open>The menu, written before anything is read.\<close>

definition menu :: ostream where
  "menu =
     [Text ''Select operation:'', Endl, Text ''1. Add'', Endl, Text ''2. Subtract'', Endl,
      Text ''3. Multiply'', Endl, Text ''4. Divide'', Endl]"

text \<open>Standard output when the second operand has been read: the menu and the three
  prompts. No prompt ends its line.\<close>

definition prompts :: ostream where
  "prompts =
     menu @ [Text ''Enter choice (1/2/3/4): '', Text ''Enter first number: '',
             Text ''Enter second number: '']"

text \<open>A \<open>double\<close> is zero when it is \<open>+0.0\<close> or \<open>-0.0\<close>.\<close>

definition is_zero :: "double \<Rightarrow> bool" where
  "is_zero d = (d = Finite False 0 \<or> d = Finite True 0)"

text \<open>An insertion of a text that begins with \<open>Result:\<close>, and how many of them an
  output holds.\<close>

fun starts_result :: "out_item \<Rightarrow> bool" where
  "starts_result (Text s) = (take 7 s = ''Result:'')"
| "starts_result (Number _) = False"
| "starts_result Endl = False"

definition result_count :: "ostream \<Rightarrow> nat" where
  "result_count os = length (filter starts_result os)"

text \<open>The value that the operation selected by \<open>s\<close> has on \<open>a\<close> and \<open>b\<close>.\<close>

definition selected :: "32 word \<Rightarrow> double \<Rightarrow> double \<Rightarrow> double" where
  "selected s a b =
     (if s = 1 then fadd a b else if s = 2 then fsub a b
      else if s = 3 then fmul a b else fdiv a b)"

text \<open>The case labels of the \<open>switch\<close> that a selector matches.\<close>

definition matching_labels :: "32 word \<Rightarrow> 32 word list" where
  "matching_labels c = filter (\<lambda>k. c = k) [1, 2, 3, 4]"



section \<open>Auxiliary facts\<close>

subsection \<open>The rounding is that of binary64\<close>

text \<open>
  \<open>ilog2\<close> is the binary exponent of its argument. A finite value that \<open>round_double\<close>
  delivers is an integer between 0 and \<open>2^53\<close> times a power of two not below
  \<open>2^-1074\<close>, it is less than \<open>2^1024\<close>, and it differs from the exact value by at most
  half a unit in the last place.
\<close>

lemma round_half_even_nearest: "\<bar>of_int (round_half_even x) - x\<bar> \<le> 1 / 2"
proof -
  have "of_int \<lfloor>x\<rfloor> \<le> x" "x < of_int \<lfloor>x\<rfloor> + 1" by linarith+
  then show ?thesis
    by (auto simp: round_half_even_def Let_def)
qed

lemma round_half_even_of_int: "round_half_even (of_int n) = n"
  by (simp add: round_half_even_def)

lemma pow2_pos: "0 < pow2 e"
  by (simp add: pow2_def)

lemma ilog2_bounds:
  assumes "0 < q"
  shows "pow2 (ilog2 q) \<le> q \<and> q < pow2 (ilog2 q + 1)"
proof (cases "1 \<le> q")
  case True
  define n where "n = nat \<lfloor>q\<rfloor>"
  have n1: "1 \<le> n" using True by (simp add: n_def le_nat_iff)
  have nq: "of_nat n \<le> q" "q < of_nat n + 1"
    using True by (simp_all add: n_def) linarith+
  from floorlog_bounds [of n 2] n1
  have b: "2 ^ (floorlog 2 n - 1) \<le> n" "n < 2 ^ floorlog 2 n" by simp_all
  have f1: "1 \<le> floorlog 2 n" using n1 by (simp add: floorlog_def)
  have k: "ilog2 q = int (floorlog 2 n) - 1"
    using True by (simp add: ilog2_def n_def)
  have p1: "pow2 (ilog2 q) = 2 ^ (floorlog 2 n - 1)"
    using f1 by (simp add: k pow2_def nat_diff_distrib')
  have p2: "pow2 (ilog2 q + 1) = 2 ^ floorlog 2 n"
    by (simp add: k pow2_def)
  have "(2 :: rat) ^ (floorlog 2 n - 1) \<le> of_nat n"
    using b(1) by (metis of_nat_le_iff of_nat_numeral of_nat_power)
  moreover have "of_nat n + 1 \<le> (2 :: rat) ^ floorlog 2 n"
  proof -
    from b(2) have "Suc n \<le> 2 ^ floorlog 2 n" by simp
    then have "of_nat (Suc n) \<le> (of_nat (2 ^ floorlog 2 n) :: rat)"
      by (simp only: of_nat_le_iff)
    then show ?thesis by simp
  qed
  ultimately show ?thesis using nq p1 p2 by linarith
next
  case False
  with assms have q1: "q < 1" by simp
  define p where "p = nat (\<lceil>1 / q\<rceil> - 1)"
  have big: "1 < 1 / q" using assms q1 by simp
  then have j2: "2 \<le> \<lceil>1 / q\<rceil>" by linarith
  then have p1: "1 \<le> p" unfolding p_def by linarith
  have pj: "of_nat p = of_int \<lceil>1 / q\<rceil> - (1 :: rat)"
  proof -
    from j2 have "int p = \<lceil>1 / q\<rceil> - 1" unfolding p_def by linarith
    then have "(of_int (int p) :: rat) = of_int (\<lceil>1 / q\<rceil> - 1)" by (simp only:)
    then show ?thesis by simp
  qed
  have c: "1 / q \<le> of_int \<lceil>1 / q\<rceil>" "of_int \<lceil>1 / q\<rceil> - 1 < 1 / q" by linarith+
  from floorlog_bounds [of p 2] p1
  have b: "2 ^ (floorlog 2 p - 1) \<le> p" "p < 2 ^ floorlog 2 p" by simp_all
  have f1: "1 \<le> floorlog 2 p" using p1 by (simp add: floorlog_def)
  have k: "ilog2 q = - int (floorlog 2 p)"
    using False by (simp add: ilog2_def p_def)
  have e1: "pow2 (ilog2 q) = 1 / 2 ^ floorlog 2 p"
    using f1 by (simp add: k pow2_def)
  have e2: "pow2 (ilog2 q + 1) = 1 / 2 ^ (floorlog 2 p - 1)"
  proof (cases "floorlog 2 p = 1")
    case True
    then show ?thesis by (simp add: k pow2_def)
  next
    case False
    with f1 have "1 < floorlog 2 p" by simp
    then have "nat (int (floorlog 2 p) - 1) = floorlog 2 p - 1" by simp
    with \<open>1 < floorlog 2 p\<close> show ?thesis by (simp add: k pow2_def)
  qed
  have u: "(2 :: rat) ^ (floorlog 2 p - 1) \<le> of_nat p"
    using b(1) by (metis of_nat_le_iff of_nat_numeral of_nat_power)
  have l: "of_nat p + 1 \<le> (2 :: rat) ^ floorlog 2 p"
  proof -
    from b(2) have "Suc p \<le> 2 ^ floorlog 2 p" by simp
    then have "of_nat (Suc p) \<le> (of_nat (2 ^ floorlog 2 p) :: rat)"
      by (simp only: of_nat_le_iff)
    then show ?thesis by simp
  qed
  have a1: "1 / q \<le> 2 ^ floorlog 2 p" using l pj c by linarith
  have a2: "2 ^ (floorlog 2 p - 1) < 1 / q" using u pj c by linarith
  have "1 / 2 ^ floorlog 2 p \<le> q"
    using a1 assms by (simp add: field_simps)
  moreover have "q < 1 / 2 ^ (floorlog 2 p - 1)"
    using a2 assms by (simp add: field_simps)
  ultimately show ?thesis by (simp add: e1 e2)
qed

lemma round_double_error:
  assumes "0 < q" and "round_double s q = Finite t r"
  shows "t = s \<and> \<bar>r - q\<bar> \<le> pow2 (max (ilog2 q - 52) (- 1074)) / 2"
proof -
  let ?e = "max (ilog2 q - 52) (- 1074)"
  let ?m = "round_half_even (q / pow2 ?e)"
  from assms have r: "t = s" "r = of_int ?m * pow2 ?e"
    by (auto simp: round_double_def Let_def split: if_splits)
  have "\<bar>of_int ?m - q / pow2 ?e\<bar> \<le> 1 / 2" by (rule round_half_even_nearest)
  then have "\<bar>of_int ?m - q / pow2 ?e\<bar> * pow2 ?e \<le> 1 / 2 * pow2 ?e"
    using pow2_pos [of ?e] by (simp only: mult_le_cancel_right_pos)
  moreover have "\<bar>of_int ?m - q / pow2 ?e\<bar> * pow2 ?e = \<bar>of_int ?m * pow2 ?e - q\<bar>"
  proof -
    have "\<bar>of_int ?m - q / pow2 ?e\<bar> * pow2 ?e = \<bar>(of_int ?m - q / pow2 ?e) * pow2 ?e\<bar>"
      using pow2_pos [of ?e] by (simp add: abs_mult)
    also have "(of_int ?m - q / pow2 ?e) * pow2 ?e = of_int ?m * pow2 ?e - q"
      using pow2_pos [of ?e] by (simp add: field_simps)
    finally show ?thesis .
  qed
  ultimately show ?thesis using r by simp
qed

lemma pow2_powi: "pow2 e = 2 powi e"
  by (simp add: pow2_def power_int_def inverse_eq_divide power_one_over)

lemma round_half_even_range:
  assumes "0 \<le> x" and "x < of_int n"
  shows "0 \<le> round_half_even x \<and> round_half_even x \<le> n"
proof -
  have "0 \<le> \<lfloor>x\<rfloor>" using assms(1) by simp
  moreover have "\<lfloor>x\<rfloor> < n" using assms(2) by (simp add: floor_less_iff)
  ultimately show ?thesis by (auto simp: round_half_even_def Let_def)
qed

lemma round_double_representable:
  assumes "0 < q" and "round_double s q = Finite t r"
  shows "\<exists>m e. r = of_int m * pow2 e \<and> 0 \<le> m \<and> m \<le> 2 ^ 53 \<and> - 1074 \<le> e \<and> r < pow2 1024"
proof -
  let ?e = "max (ilog2 q - 52) (- 1074)"
  let ?m = "round_half_even (q / pow2 ?e)"
  from assms have r: "r = of_int ?m * pow2 ?e" "r < pow2 1024"
    by (auto simp: round_double_def Let_def split: if_splits)
  have "q < pow2 (ilog2 q + 1)" using ilog2_bounds [OF assms(1)] by simp
  also have "pow2 (ilog2 q + 1) = pow2 (ilog2 q - 52) * 2 ^ 53"
  proof -
    have "(2 :: rat) powi (ilog2 q - 52 + 53) = 2 powi (ilog2 q - 52) * 2 powi 53"
      by (rule power_int_add) simp
    moreover have "ilog2 q - 52 + 53 = ilog2 q + 1" by simp
    ultimately have "(2 :: rat) powi (ilog2 q + 1) = 2 powi (ilog2 q - 52) * 2 powi 53"
      by (simp only:)
    then show ?thesis by (simp add: pow2_powi)
  qed
  also have "\<dots> \<le> pow2 ?e * 2 ^ 53"
  proof -
    have "(2 :: rat) powi (ilog2 q - 52) \<le> 2 powi ?e"
      by (rule power_int_increasing) simp_all
    then show ?thesis by (simp add: pow2_powi)
  qed
  finally have "q / pow2 ?e < 2 ^ 53"
    using pow2_pos [of ?e] by (simp add: field_simps)
  then have "q / pow2 ?e < of_int (2 ^ 53)" by simp
  moreover have "0 \<le> q / pow2 ?e" using assms(1) pow2_pos [of ?e] by simp
  ultimately have "0 \<le> ?m \<and> ?m \<le> 2 ^ 53" by (rule round_half_even_range [rotated])
  with r show ?thesis by (intro exI [of _ ?m] exI [of _ ?e]) simp
qed

subsection \<open>Evaluation on numerals, unfolding of the streams\<close>

lemmas scan_defs = cin_start_def extract_int_def extract_double_def scan_float_def field_value_def
  get_sign_def isspace_def isdigit_def decimal_def Let_def
lemma floorlog2_zero: "floorlog 2 0 = 0"
  by (simp add: floorlog_def)

lemma floorlog2_step: "0 < x \<Longrightarrow> floorlog 2 x = floorlog 2 (x div 2) + 1"
  by (subst compute_floorlog) simp

lemma floor_rat_quotient: "\<lfloor>numeral a / numeral b :: rat\<rfloor> = numeral a div numeral b"
  by (metis floor_divide_of_int_eq of_int_numeral)

lemma floor_rat_inverse: "\<lfloor>1 / numeral b :: rat\<rfloor> = 1 div numeral b"
  by (metis floor_divide_of_int_eq of_int_1 of_int_numeral)

lemma ceiling_rat_quotient: "\<lceil>numeral a / numeral b :: rat\<rceil> = - (- numeral a div numeral b)"
  by (metis ceiling_def floor_divide_of_int_eq minus_divide_left of_int_minus of_int_numeral)

lemma ceiling_rat_inverse: "\<lceil>1 / numeral b :: rat\<rceil> = - (- 1 div numeral b)"
  by (metis ceiling_def floor_divide_of_int_eq minus_divide_left of_int_minus of_int_1
      of_int_numeral)

lemmas round_eval = round_double_def round_half_even_def ilog2_def pow2_def
  floorlog2_zero floorlog2_step floor_rat_quotient floor_rat_inverse
  ceiling_rat_quotient ceiling_rat_inverse

lemma banner_menu: "banner [] = menu"
  by (simp add: banner_def menu_def put_str_def endl_def)

lemma feq_zero: "feq b (double_of_int 0) = is_zero b"
  by (cases b) (auto simp: double_of_int_def round_double_def is_zero_def signed_val_def)

lemma divide_eq:
  "divide a b os =
     (if is_zero b then (Inl (Runtime_error ''Error! Division by zero.''), os)
      else (Inr (), os @ [Text ''Result: '', Number (fdiv a b), Endl]))"
  by (simp add: divide_def feq_zero put_str_def put_double_def endl_def)

lemma valid_selector:
  fixes c :: "32 word"
  assumes "1 \<le> sint c" "sint c \<le> 4"
  shows "c = 1 \<or> c = 2 \<or> c = 3 \<or> c = 4"
proof -
  have "sint c = 1 \<or> sint c = 2 \<or> sint c = 3 \<or> sint c = 4"
    using assms by arith
  moreover have "c = word_of_int (sint c)" by simp
  ultimately show ?thesis
    by (metis of_int_1 of_int_numeral)
qed

lemma selector_range:
  fixes c :: "32 word"
  shows "(1 \<le> sint c \<and> sint c \<le> 4) = (c = 1 \<or> c = 2 \<or> c = 3 \<or> c = 4)"
  using valid_selector [of c] by auto

lemma dispatch_valid:
  fixes c :: "32 word"
  assumes "1 \<le> sint c" "sint c \<le> 4"
  shows "dispatch c a b os =
     (if c = 4 \<and> is_zero b then (Inl (Runtime_error ''Error! Division by zero.''), os)
      else (Inr (), os @ [Text ''Result: '', Number (selected c a b), Endl]))"
  using valid_selector [OF assms]
  by (auto simp: dispatch_def selected_def divide_eq add_def subtract_def multiply_def
      put_str_def put_double_def endl_def)

lemma try_dispatch_valid:
  fixes c :: "32 word"
  assumes "1 \<le> sint c" "sint c \<le> 4"
  shows "try_dispatch c a b os =
     (if c = 4 \<and> is_zero b then os @ [Text ''Error! Division by zero.'', Endl]
      else os @ [Text ''Result: '', Number (selected c a b), Endl])"
  by (simp add: try_dispatch_def dispatch_valid [OF assms] put_str_def endl_def)

lemma result_count_prompts: "result_count prompts = 0"
  by (simp add: result_count_def prompts_def menu_def)

lemma result_count_append: "result_count (xs @ ys) = result_count xs + result_count ys"
  by (simp add: result_count_def)

lemma extract_int_frame:
  "\<not> failbit (fst (extract_int s v)) \<Longrightarrow> extract_int s v = extract_int s v'"
  by (auto simp: extract_int_def Let_def split: prod.splits if_splits)

lemma extract_int_stream: "fst (extract_int s v) = fst (extract_int s v')"
  by (auto simp: extract_int_def Let_def split: prod.splits if_splits)

lemma extract_double_frame:
  "\<not> failbit s \<Longrightarrow> \<not> failbit (fst (extract_double s v)) \<Longrightarrow> extract_double s v = extract_double s v'"
  by (auto simp: extract_double_def Let_def split: prod.splits if_splits option.splits double.splits)

lemma extract_double_stream:
  "\<not> failbit s \<Longrightarrow> fst (extract_double s v) = fst (extract_double s v')"
  by (auto simp: extract_double_def Let_def split: prod.splits if_splits option.splits double.splits)

lemma main_frame: "main fr inp = main fr' inp"
proof -
  let ?s = "\<lparr>buf = inp, failbit = False\<rparr>"
  show ?thesis
  proof (cases "failbit (fst (extract_int ?s (choice fr)))")
    case True
    then have "failbit (fst (extract_int ?s (choice fr')))"
      using extract_int_stream [of ?s "choice fr" "choice fr'"] by simp
    with True show ?thesis
      using extract_int_stream [of ?s "choice fr" "choice fr'"]
      by (simp add: main_def Let_def case_prod_beta)
  next
    case False
    then have e1: "extract_int ?s (choice fr') = extract_int ?s (choice fr)"
      using extract_int_frame [of ?s "choice fr" "choice fr'"] by simp
    let ?c1 = "fst (extract_int ?s (choice fr))"
    show ?thesis
    proof (cases "failbit (fst (extract_double ?c1 (num1 fr)))")
      case True
      then have "failbit (fst (extract_double ?c1 (num1 fr')))"
        using extract_double_stream [OF False, of "num1 fr" "num1 fr'"] by simp
      with True show ?thesis
        using extract_double_stream [OF False, of "num1 fr" "num1 fr'"]
        by (simp add: main_def Let_def case_prod_beta e1)
    next
      case f2: False
      then have e2: "extract_double ?c1 (num1 fr') = extract_double ?c1 (num1 fr)"
        using extract_double_frame [OF False, of "num1 fr" "num1 fr'"] by simp
      let ?c2 = "fst (extract_double ?c1 (num1 fr))"
      show ?thesis
      proof (cases "failbit (fst (extract_double ?c2 (num2 fr)))")
        case True
        then have "failbit (fst (extract_double ?c2 (num2 fr')))"
          using extract_double_stream [OF f2, of "num2 fr" "num2 fr'"] by simp
        with True show ?thesis
          using extract_double_stream [OF f2, of "num2 fr" "num2 fr'"]
          by (simp add: main_def Let_def case_prod_beta e1 e2)
      next
        case f3: False
        then have e3: "extract_double ?c2 (num2 fr') = extract_double ?c2 (num2 fr)"
          using extract_double_frame [OF f2, of "num2 fr" "num2 fr'"] by simp
        show ?thesis
          by (simp add: main_def Let_def case_prod_beta e1 e2 e3)
      qed
    qed
  qed
qed

lemma extract_double_failed: "failbit s \<Longrightarrow> extract_double s v = (s, v)"
  by (simp add: extract_double_def)

lemma extract_double_finite:
  "\<not> failbit s \<Longrightarrow> \<not> failbit (fst (extract_double s v)) \<Longrightarrow> is_finite (snd (extract_double s v))"
  by (auto simp: extract_double_def is_finite_def Let_def
      split: prod.splits if_splits option.splits double.splits)

lemma main_selector_path:
  assumes "extract_int (cin_start inp) (choice fr) = (cin1, c)"
    and "failbit cin1 \<or> sint c < 1 \<or> 4 < sint c"
  shows "main fr inp =
     \<lparr>exit_code = 1,
      stdout = menu @ [Text ''Enter choice (1/2/3/4): '', Text ''Invalid input'', Endl],
      stdin = cin1\<rparr>"
  using assms
  by (simp add: main_def cin_start_def banner_menu put_str_def endl_def)

lemma main_first_path:
  assumes "extract_int (cin_start inp) (choice fr) = (cin1, c)"
    and "\<not> failbit cin1" "1 \<le> sint c" "sint c \<le> 4"
    and "extract_double cin1 (num1 fr) = (cin2, a)" "failbit cin2"
  shows "main fr inp =
     \<lparr>exit_code = 1,
      stdout = menu @ [Text ''Enter choice (1/2/3/4): '', Text ''Enter first number: '',
                       Text ''Invalid input'', Endl],
      stdin = cin2\<rparr>"
  using assms
  by (simp add: main_def cin_start_def banner_menu put_str_def endl_def)

lemma main_second_path:
  assumes "extract_int (cin_start inp) (choice fr) = (cin1, c)"
    and "\<not> failbit cin1" "1 \<le> sint c" "sint c \<le> 4"
    and "extract_double cin1 (num1 fr) = (cin2, a)" "\<not> failbit cin2"
    and "extract_double cin2 (num2 fr) = (cin3, b)" "failbit cin3"
  shows "main fr inp =
     \<lparr>exit_code = 1, stdout = prompts @ [Text ''Invalid input'', Endl], stdin = cin3\<rparr>"
  using assms
  by (simp add: main_def cin_start_def banner_menu put_str_def endl_def prompts_def)

lemma main_dispatch_path:
  assumes "extract_int (cin_start inp) (choice fr) = (cin1, c)"
    and "\<not> failbit cin1" "1 \<le> sint c" "sint c \<le> 4"
    and "extract_double cin1 (num1 fr) = (cin2, a)" "\<not> failbit cin2"
    and "extract_double cin2 (num2 fr) = (cin3, b)" "\<not> failbit cin3"
  shows "main fr inp =
     \<lparr>exit_code = 0, stdout = try_dispatch c a b prompts, stdin = cin3\<rparr>"
  using assms
  by (simp add: main_def cin_start_def banner_menu put_str_def endl_def prompts_def)

lemma main_cases:
  obtains (selector) cin1 c where
      "main fr inp =
         \<lparr>exit_code = 1,
          stdout = menu @ [Text ''Enter choice (1/2/3/4): '', Text ''Invalid input'', Endl],
          stdin = cin1\<rparr>"
  | (first) cin2 where
      "main fr inp =
         \<lparr>exit_code = 1,
          stdout = menu @ [Text ''Enter choice (1/2/3/4): '', Text ''Enter first number: '',
                           Text ''Invalid input'', Endl],
          stdin = cin2\<rparr>"
  | (second) cin3 where
      "main fr inp =
         \<lparr>exit_code = 1, stdout = prompts @ [Text ''Invalid input'', Endl], stdin = cin3\<rparr>"
  | (run) c a b cin3 where "1 \<le> sint c" "sint c \<le> 4"
      "main fr inp = \<lparr>exit_code = 0, stdout = try_dispatch c a b prompts, stdin = cin3\<rparr>"
proof -
  obtain cin1 c where e1: "extract_int (cin_start inp) (choice fr) = (cin1, c)"
    by (cases "extract_int (cin_start inp) (choice fr)")
  obtain cin2 a where e2: "extract_double cin1 (num1 fr) = (cin2, a)"
    by (cases "extract_double cin1 (num1 fr)")
  obtain cin3 b where e3: "extract_double cin2 (num2 fr) = (cin3, b)"
    by (cases "extract_double cin2 (num2 fr)")
  show ?thesis
  proof (cases "failbit cin1 \<or> sint c < 1 \<or> 4 < sint c")
    case True
    then show ?thesis using main_selector_path [OF e1] selector by blast
  next
    case ok: False
    then have v: "\<not> failbit cin1" "1 \<le> sint c" "sint c \<le> 4" by auto
    show ?thesis
    proof (cases "failbit cin2")
      case True
      then show ?thesis using main_first_path [OF e1 v e2] first by blast
    next
      case f2: False
      show ?thesis
      proof (cases "failbit cin3")
        case True
        then show ?thesis using main_second_path [OF e1 v e2 f2 e3] second by blast
      next
        case False
        then show ?thesis using main_dispatch_path [OF e1 v e2 f2 e3] run v by blast
      qed
    qed
  qed
qed

subsection \<open>What counts as a token that parses\<close>

text \<open>
  An extraction reads the longest prefix that is a number and leaves the rest in the stream.
  So the input \<open>1.5 2\<close> is a valid run: the selector is 1, the first operand is \<open>.5\<close>
  and the second is 2.
\<close>

lemma numeric_prefix_is_read:
  "main \<lparr>choice = 0, num1 = NaN, num2 = NaN\<rparr> ''1.5 2'' =
     \<lparr>exit_code = 0,
      stdout = prompts @ [Text ''Result: '', Number (Finite False (5 / 2)), Endl],
      stdin = \<lparr>buf = [], failbit = False\<rparr>\<rparr>"
proof -
  let ?fr = "\<lparr>choice = 0, num1 = NaN, num2 = NaN\<rparr>"
  have e1: "extract_int (cin_start ''1.5 2'') (choice ?fr)
      = (\<lparr>buf = ''.5 2'', failbit = False\<rparr>, 1)"
    by (simp add: scan_defs)
  have e2: "extract_double \<lparr>buf = ''.5 2'', failbit = False\<rparr> (num1 ?fr)
      = (\<lparr>buf = '' 2'', failbit = False\<rparr>, Finite False (1 / 2))"
    by (simp add: scan_defs round_eval)
  have e3: "extract_double \<lparr>buf = '' 2'', failbit = False\<rparr> (num2 ?fr)
      = (\<lparr>buf = [], failbit = False\<rparr>, Finite False 2)"
    by (simp add: scan_defs round_eval)
  have v: "1 \<le> sint (1 :: 32 word)" "sint (1 :: 32 word) \<le> 4" by simp_all
  have s: "selected 1 (Finite False (1 / 2)) (Finite False 2) = Finite False (5 / 2)"
    by (simp add: selected_def signed_val_def round_eval Let_def)
  show ?thesis
    using main_dispatch_path [OF e1 _ v e2 _ e3]
    by (simp add: try_dispatch_valid [OF v] s)
qed

text \<open>
  A token that begins with a character that cannot begin a number (no digit, sign or point)
  makes the extraction of a \<open>double\<close> fail, and none of it is consumed.
\<close>

lemma extract_double_no_number:
  assumes "\<not> failbit s" and "dropWhile isspace (buf s) = c # cs"
    and "\<not> isdigit c" and "c \<noteq> CHR ''+''" and "c \<noteq> CHR ''-''" and "c \<noteq> CHR ''.''"
  shows "extract_double s v = (\<lparr>buf = c # cs, failbit = True\<rparr>, Finite False 0)"
  using assms
  by (simp add: extract_double_def get_sign_def scan_float_def field_value_def Let_def)

section \<open>The claims\<close>

text \<open>
  In the theorems below a run is described by what the three extractions give: \<open>cin1\<close>
  and the selector after \<open>cin >> choice\<close>, \<open>cin2\<close> and the first operand after
  \<open>cin >> num1\<close>, \<open>cin3\<close> and the second operand after \<open>cin >> num2\<close>. A token
  "parses" when the extraction leaves the fail bit clear. \<open>fr\<close> is the arbitrary initial
  content of the local variables.
\<close>

text \<open>
  Claim C1. When the selector read is 1, 2, 3 or 4 and both operands are read, the second one
  not a zero if the selector is 4, the run ends with exit code 0 and its output is the menu
  and the prompts followed by the text \<open>Result: \<close>, the value and the end of line, where
  the value is the IEEE sum, difference, product or quotient of the operands, according to
  the selector; this is the only text beginning with \<open>Result:\<close> in the output. The
  prompts do not end their line, so on the stream itself the result text follows them on
  one line. The operands that an extraction delivers are always finite
  (\<open>extract_double_finite\<close>), so finiteness is no separate hypothesis.
\<close>

theorem result_line_printed:
  assumes "extract_int (cin_start inp) (choice fr) = (cin1, s)"
    and "\<not> failbit cin1" and "s = 1 \<or> s = 2 \<or> s = 3 \<or> s = 4"
    and "extract_double cin1 (num1 fr) = (cin2, a)" and "\<not> failbit cin2"
    and "extract_double cin2 (num2 fr) = (cin3, b)" and "\<not> failbit cin3"
    and "s = 4 \<longrightarrow> \<not> is_zero b"
  shows "main fr inp =
           \<lparr>exit_code = 0,
            stdout = prompts @ [Text ''Result: '', Number (selected s a b), Endl],
            stdin = cin3\<rparr>
         \<and> result_count (stdout (main fr inp)) = 1"
proof -
  from assms(3) have v: "1 \<le> sint s" "sint s \<le> 4" by auto
  have m: "main fr inp =
      \<lparr>exit_code = 0, stdout = prompts @ [Text ''Result: '', Number (selected s a b), Endl],
       stdin = cin3\<rparr>"
    using main_dispatch_path [OF assms(1,2) v assms(4-7)] assms(8)
    by (simp add: try_dispatch_valid [OF v])
  have "result_count (prompts @ [Text ''Result: '', Number (selected s a b), Endl]) = 1"
    by (simp add: result_count_append result_count_prompts) (simp add: result_count_def)
  with m show ?thesis by simp
qed

theorem result_line_printed_witness:
  "extract_int (cin_start ''3 4 2.5'') 0 = (\<lparr>buf = '' 4 2.5'', failbit = False\<rparr>, 3)
   \<and> extract_double \<lparr>buf = '' 4 2.5'', failbit = False\<rparr> NaN
       = (\<lparr>buf = '' 2.5'', failbit = False\<rparr>, Finite False 4)
   \<and> extract_double \<lparr>buf = '' 2.5'', failbit = False\<rparr> NaN
       = (\<lparr>buf = [], failbit = False\<rparr>, Finite False (5 / 2))
   \<and> main \<lparr>choice = 0, num1 = NaN, num2 = NaN\<rparr> ''3 4 2.5'' =
       \<lparr>exit_code = 0,
        stdout = prompts @ [Text ''Result: '', Number (Finite False 10), Endl],
        stdin = \<lparr>buf = [], failbit = False\<rparr>\<rparr>
   \<and> result_count (stdout (main \<lparr>choice = 0, num1 = NaN, num2 = NaN\<rparr> ''3 4 2.5'')) = 1"
proof -
  let ?fr = "\<lparr>choice = 0, num1 = NaN, num2 = NaN\<rparr>"
  have e1: "extract_int (cin_start ''3 4 2.5'') (choice ?fr)
      = (\<lparr>buf = '' 4 2.5'', failbit = False\<rparr>, 3)"
    by (simp add: scan_defs)
  have e2: "extract_double \<lparr>buf = '' 4 2.5'', failbit = False\<rparr> (num1 ?fr)
      = (\<lparr>buf = '' 2.5'', failbit = False\<rparr>, Finite False 4)"
    by (simp add: scan_defs round_eval)
  have e3: "extract_double \<lparr>buf = '' 2.5'', failbit = False\<rparr> (num2 ?fr)
      = (\<lparr>buf = [], failbit = False\<rparr>, Finite False (5 / 2))"
    by (simp add: scan_defs round_eval)
  have v: "selected 3 (Finite False 4) (Finite False (5 / 2)) = Finite False 10"
    by (simp add: selected_def round_eval)
  have r: "main ?fr ''3 4 2.5'' =
           \<lparr>exit_code = 0,
            stdout = prompts @ [Text ''Result: '',
                       Number (selected 3 (Finite False 4) (Finite False (5 / 2))), Endl],
            stdin = \<lparr>buf = [], failbit = False\<rparr>\<rparr>
         \<and> result_count (stdout (main ?fr ''3 4 2.5'')) = 1"
    by (rule result_line_printed [OF e1 _ _ e2 _ e3]) simp_all
  from r v have r1: "main ?fr ''3 4 2.5'' =
           \<lparr>exit_code = 0,
            stdout = prompts @ [Text ''Result: '', Number (Finite False 10), Endl],
            stdin = \<lparr>buf = [], failbit = False\<rparr>\<rparr>"
    by simp
  from r have r2: "result_count (stdout (main ?fr ''3 4 2.5'')) = 1" ..
  from e1 e2 e3 r1 r2 show ?thesis by simp
qed

text \<open>
  Claim C2. When the selector read is 4 and the second operand read is a zero, the output is
  the menu and the prompts followed by \<open>Error! Division by zero.\<close> and the end of line,
  and no text beginning with \<open>Result:\<close> is written anywhere in it.
\<close>

theorem division_by_zero_diagnostic:
  assumes "extract_int (cin_start inp) (choice fr) = (cin1, 4)" and "\<not> failbit cin1"
    and "extract_double cin1 (num1 fr) = (cin2, a)" and "\<not> failbit cin2"
    and "extract_double cin2 (num2 fr) = (cin3, b)" and "\<not> failbit cin3"
    and "is_zero b"
  shows "stdout (main fr inp) = prompts @ [Text ''Error! Division by zero.'', Endl]
         \<and> result_count (stdout (main fr inp)) = 0"
proof -
  have v: "1 \<le> sint (4 :: 32 word)" "sint (4 :: 32 word) \<le> 4" by simp_all
  have "main fr inp =
      \<lparr>exit_code = 0, stdout = prompts @ [Text ''Error! Division by zero.'', Endl],
       stdin = cin3\<rparr>"
    using main_dispatch_path [OF assms(1,2) v assms(3-6)] assms(7)
    by (simp add: try_dispatch_valid [OF v])
  moreover have "result_count (prompts @ [Text ''Error! Division by zero.'', Endl]) = 0"
    by (simp add: result_count_append result_count_prompts) (simp add: result_count_def)
  ultimately show ?thesis by simp
qed

theorem division_by_zero_diagnostic_witness:
  "extract_int (cin_start ''4 10 0'') 0 = (\<lparr>buf = '' 10 0'', failbit = False\<rparr>, 4)
   \<and> extract_double \<lparr>buf = '' 10 0'', failbit = False\<rparr> NaN
       = (\<lparr>buf = '' 0'', failbit = False\<rparr>, Finite False 10)
   \<and> extract_double \<lparr>buf = '' 0'', failbit = False\<rparr> NaN
       = (\<lparr>buf = [], failbit = False\<rparr>, Finite False 0)
   \<and> is_zero (Finite False 0)
   \<and> stdout (main \<lparr>choice = 0, num1 = NaN, num2 = NaN\<rparr> ''4 10 0'')
       = prompts @ [Text ''Error! Division by zero.'', Endl]
   \<and> result_count (stdout (main \<lparr>choice = 0, num1 = NaN, num2 = NaN\<rparr> ''4 10 0'')) = 0"
proof -
  let ?fr = "\<lparr>choice = 0, num1 = NaN, num2 = NaN\<rparr>"
  have e1: "extract_int (cin_start ''4 10 0'') (choice ?fr)
      = (\<lparr>buf = '' 10 0'', failbit = False\<rparr>, 4)"
    by (simp add: scan_defs)
  have e2: "extract_double \<lparr>buf = '' 10 0'', failbit = False\<rparr> (num1 ?fr)
      = (\<lparr>buf = '' 0'', failbit = False\<rparr>, Finite False 10)"
    by (simp add: scan_defs round_eval)
  have e3: "extract_double \<lparr>buf = '' 0'', failbit = False\<rparr> (num2 ?fr)
      = (\<lparr>buf = [], failbit = False\<rparr>, Finite False 0)"
    by (simp add: scan_defs round_eval)
  have z: "is_zero (Finite False 0)"
    by (simp add: is_zero_def)
  have r: "stdout (main ?fr ''4 10 0'') = prompts @ [Text ''Error! Division by zero.'', Endl]
         \<and> result_count (stdout (main ?fr ''4 10 0'')) = 0"
    by (rule division_by_zero_diagnostic [OF e1 _ e2 _ e3 _ z]) simp_all
  from r have r1: "stdout (main ?fr ''4 10 0'')
      = prompts @ [Text ''Error! Division by zero.'', Endl]" ..
  from r have r2: "result_count (stdout (main ?fr ''4 10 0'')) = 0" ..
  from e1 e2 e3 z r1 show ?thesis
    using r2 by simp
qed

text \<open>
  Claim C3. For every run: if a text beginning with \<open>Result:\<close> is written, the exit code
  is 0; if the selector does not parse or is none of 1, 2, 3, 4, or an operand does not
  parse, the exit code is 1; and if the selector is 4 and the second operand is a zero, the
  output ends with the diagnostic \<open>Error! Division by zero.\<close> and the exit code is 0.
\<close>

theorem exit_codes:
  assumes "extract_int (cin_start inp) (choice fr) = (cin1, c)"
    and "extract_double cin1 (num1 fr) = (cin2, a)"
    and "extract_double cin2 (num2 fr) = (cin3, b)"
  shows "(0 < result_count (stdout (main fr inp)) \<longrightarrow> exit_code (main fr inp) = 0)
       \<and> (failbit cin1 \<or> c \<notin> {1, 2, 3, 4} \<or> failbit cin2 \<or> failbit cin3
            \<longrightarrow> exit_code (main fr inp) = 1)
       \<and> (\<not> failbit cin1 \<and> c = 4 \<and> \<not> failbit cin2 \<and> \<not> failbit cin3 \<and> is_zero b
            \<longrightarrow> stdout (main fr inp) = prompts @ [Text ''Error! Division by zero.'', Endl]
                \<and> exit_code (main fr inp) = 0)"
proof (intro conjI impI)
  assume "0 < result_count (stdout (main fr inp))"
  then show "exit_code (main fr inp) = 0"
    by (cases rule: main_cases [of fr inp])
       (simp_all add: result_count_def menu_def prompts_def)
next
  assume bad: "failbit cin1 \<or> c \<notin> {1, 2, 3, 4} \<or> failbit cin2 \<or> failbit cin3"
  show "exit_code (main fr inp) = 1"
  proof (cases "failbit cin1 \<or> sint c < 1 \<or> 4 < sint c")
    case True
    then show ?thesis using main_selector_path [OF assms(1)] by simp
  next
    case False
    then have v: "\<not> failbit cin1" "1 \<le> sint c" "sint c \<le> 4" by auto
    then have "c = 1 \<or> c = 2 \<or> c = 3 \<or> c = 4" by (simp add: selector_range [symmetric])
    with bad v have f: "failbit cin2 \<or> failbit cin3" by auto
    show ?thesis
    proof (cases "failbit cin2")
      case True
      then show ?thesis using main_first_path [OF assms(1) v assms(2)] by simp
    next
      case False
      with f have "failbit cin3" by simp
      then show ?thesis using main_second_path [OF assms(1) v assms(2) False assms(3)] by simp
    qed
  qed
next
  assume h: "\<not> failbit cin1 \<and> c = 4 \<and> \<not> failbit cin2 \<and> \<not> failbit cin3 \<and> is_zero b"
  have v: "1 \<le> sint (4 :: 32 word)" "sint (4 :: 32 word) \<le> 4" by simp_all
  from h assms(1) have e1: "extract_int (cin_start inp) (choice fr) = (cin1, 4)" by simp
  have "main fr inp = \<lparr>exit_code = 0, stdout = try_dispatch 4 a b prompts, stdin = cin3\<rparr>"
    using main_dispatch_path [OF e1 _ v assms(2) _ assms(3)] h by simp
  with h show "stdout (main fr inp) = prompts @ [Text ''Error! Division by zero.'', Endl]"
    by (simp add: try_dispatch_valid [OF v])
next
  assume h: "\<not> failbit cin1 \<and> c = 4 \<and> \<not> failbit cin2 \<and> \<not> failbit cin3 \<and> is_zero b"
  have v: "1 \<le> sint (4 :: 32 word)" "sint (4 :: 32 word) \<le> 4" by simp_all
  from h assms(1) have e1: "extract_int (cin_start inp) (choice fr) = (cin1, 4)" by simp
  show "exit_code (main fr inp) = 0"
    using main_dispatch_path [OF e1 _ v assms(2) _ assms(3)] h by simp
qed

theorem exit_codes_witness:
  "0 < result_count (stdout (main \<lparr>choice = 0, num1 = NaN, num2 = NaN\<rparr> ''1 2 3''))
   \<and> exit_code (main \<lparr>choice = 0, num1 = NaN, num2 = NaN\<rparr> ''1 2 3'') = 0
   \<and> extract_int (cin_start ''7 1 2'') 0 = (\<lparr>buf = '' 1 2'', failbit = False\<rparr>, 7)
   \<and> (7 :: 32 word) \<notin> {1, 2, 3, 4}
   \<and> exit_code (main \<lparr>choice = 0, num1 = NaN, num2 = NaN\<rparr> ''7 1 2'') = 1
   \<and> stdout (main \<lparr>choice = 0, num1 = NaN, num2 = NaN\<rparr> ''4 10 0'')
       = prompts @ [Text ''Error! Division by zero.'', Endl]
   \<and> exit_code (main \<lparr>choice = 0, num1 = NaN, num2 = NaN\<rparr> ''4 10 0'') = 0"
proof -
  let ?fr = "\<lparr>choice = 0, num1 = NaN, num2 = NaN\<rparr>"
  have a1: "extract_int (cin_start ''1 2 3'') (choice ?fr)
      = (\<lparr>buf = '' 2 3'', failbit = False\<rparr>, 1)"
    by (simp add: scan_defs)
  have a2: "extract_double \<lparr>buf = '' 2 3'', failbit = False\<rparr> (num1 ?fr)
      = (\<lparr>buf = '' 3'', failbit = False\<rparr>, Finite False 2)"
    by (simp add: scan_defs round_eval)
  have a3: "extract_double \<lparr>buf = '' 3'', failbit = False\<rparr> (num2 ?fr)
      = (\<lparr>buf = [], failbit = False\<rparr>, Finite False 3)"
    by (simp add: scan_defs round_eval)
  have v1: "1 \<le> sint (1 :: 32 word)" "sint (1 :: 32 word) \<le> 4" by simp_all
  have "stdout (main ?fr ''1 2 3'')
      = prompts @ [Text ''Result: '', Number (selected 1 (Finite False 2) (Finite False 3)), Endl]"
    using main_dispatch_path [OF a1 _ v1 a2 _ a3]
    by (simp add: try_dispatch_valid [OF v1])
  then have a4: "0 < result_count (stdout (main ?fr ''1 2 3''))"
    by (simp add: result_count_def)
  from exit_codes [OF a1 a2 a3] a4 have a5: "exit_code (main ?fr ''1 2 3'') = 0"
    by blast
  have b1: "extract_int (cin_start ''7 1 2'') (choice ?fr)
      = (\<lparr>buf = '' 1 2'', failbit = False\<rparr>, 7)"
    by (simp add: scan_defs)
  have b2: "extract_double \<lparr>buf = '' 1 2'', failbit = False\<rparr> (num1 ?fr)
      = (\<lparr>buf = '' 2'', failbit = False\<rparr>, Finite False 1)"
    by (simp add: scan_defs round_eval)
  have b3: "extract_double \<lparr>buf = '' 2'', failbit = False\<rparr> (num2 ?fr)
      = (\<lparr>buf = [], failbit = False\<rparr>, Finite False 2)"
    by (simp add: scan_defs round_eval)
  have b4: "(7 :: 32 word) \<notin> {1, 2, 3, 4}" by simp
  from exit_codes [OF b1 b2 b3] b4 have b5: "exit_code (main ?fr ''7 1 2'') = 1"
    by blast
  have c1: "extract_int (cin_start ''4 10 0'') (choice ?fr)
      = (\<lparr>buf = '' 10 0'', failbit = False\<rparr>, 4)"
    by (simp add: scan_defs)
  have c2: "extract_double \<lparr>buf = '' 10 0'', failbit = False\<rparr> (num1 ?fr)
      = (\<lparr>buf = '' 0'', failbit = False\<rparr>, Finite False 10)"
    by (simp add: scan_defs round_eval)
  have c3: "extract_double \<lparr>buf = '' 0'', failbit = False\<rparr> (num2 ?fr)
      = (\<lparr>buf = [], failbit = False\<rparr>, Finite False 0)"
    by (simp add: scan_defs round_eval)
  have c4: "is_zero (Finite False 0)" by (simp add: is_zero_def)
  from exit_codes [OF c1 c2 c3] c4
  have c5: "stdout (main ?fr ''4 10 0'') = prompts @ [Text ''Error! Division by zero.'', Endl]"
    and c6: "exit_code (main ?fr ''4 10 0'') = 0"
    by simp_all
  from b1 have b1': "extract_int (cin_start ''7 1 2'') 0 = (\<lparr>buf = '' 1 2'', failbit = False\<rparr>, 7)"
    by simp
  from a4 a5 b1' b4 b5 c5 c6 show ?thesis by blast
qed

text \<open>
  Claim C4. If the extraction of the selector sets the fail bit, or gives a value that is
  none of 1, 2, 3, 4, the program writes \<open>Invalid input\<close> after the first prompt and ends
  with exit code 1. Standard input is left as the extraction of the selector left it and no
  prompt for an operand is written: neither operand is read. A token with an integer
  prefix, such as \<open>1.5\<close> or \<open>3abc\<close>, does not fail to parse: the prefix is the
  selector (\<open>numeric_prefix_is_read\<close>).
\<close>

theorem bad_selector_stops:
  assumes "extract_int (cin_start inp) (choice fr) = (cin1, c)"
    and "failbit cin1 \<or> c \<notin> {1, 2, 3, 4}"
  shows "main fr inp =
           \<lparr>exit_code = 1,
            stdout = menu @ [Text ''Enter choice (1/2/3/4): '', Text ''Invalid input'', Endl],
            stdin = cin1\<rparr>
         \<and> exit_code (main fr inp) \<noteq> 0"
proof -
  from assms(2) have "failbit cin1 \<or> sint c < 1 \<or> 4 < sint c"
    using selector_range [of c] by auto
  from main_selector_path [OF assms(1) this] show ?thesis by simp
qed

theorem bad_selector_stops_witness:
  "extract_int (cin_start ''x 1 2'') 0 = (\<lparr>buf = ''x 1 2'', failbit = True\<rparr>, 0)
   \<and> main \<lparr>choice = 0, num1 = NaN, num2 = NaN\<rparr> ''x 1 2'' =
       \<lparr>exit_code = 1,
        stdout = menu @ [Text ''Enter choice (1/2/3/4): '', Text ''Invalid input'', Endl],
        stdin = \<lparr>buf = ''x 1 2'', failbit = True\<rparr>\<rparr>
   \<and> extract_int (cin_start ''5 1 2'') 0 = (\<lparr>buf = '' 1 2'', failbit = False\<rparr>, 5)
   \<and> (5 :: 32 word) \<notin> {1, 2, 3, 4}
   \<and> main \<lparr>choice = 0, num1 = NaN, num2 = NaN\<rparr> ''5 1 2'' =
       \<lparr>exit_code = 1,
        stdout = menu @ [Text ''Enter choice (1/2/3/4): '', Text ''Invalid input'', Endl],
        stdin = \<lparr>buf = '' 1 2'', failbit = False\<rparr>\<rparr>"
proof -
  let ?fr = "\<lparr>choice = 0, num1 = NaN, num2 = NaN\<rparr>"
  have a1: "extract_int (cin_start ''x 1 2'') (choice ?fr)
      = (\<lparr>buf = ''x 1 2'', failbit = True\<rparr>, 0)"
    by (simp add: scan_defs)
  have a2: "failbit \<lparr>buf = ''x 1 2'', failbit = True\<rparr> \<or> (0 :: 32 word) \<notin> {1, 2, 3, 4}"
    by simp
  note a3 = bad_selector_stops [OF a1 a2, THEN conjunct1]
  have b1: "extract_int (cin_start ''5 1 2'') (choice ?fr)
      = (\<lparr>buf = '' 1 2'', failbit = False\<rparr>, 5)"
    by (simp add: scan_defs)
  have b4: "(5 :: 32 word) \<notin> {1, 2, 3, 4}" by simp
  then have b2: "failbit \<lparr>buf = '' 1 2'', failbit = False\<rparr> \<or> (5 :: 32 word) \<notin> {1, 2, 3, 4}"
    by simp
  note b3 = bad_selector_stops [OF b1 b2, THEN conjunct1]
  from a1 have a1': "extract_int (cin_start ''x 1 2'') 0 = (\<lparr>buf = ''x 1 2'', failbit = True\<rparr>, 0)"
    by simp
  from b1 have b1': "extract_int (cin_start ''5 1 2'') 0 = (\<lparr>buf = '' 1 2'', failbit = False\<rparr>, 5)"
    by simp
  from a1' a3 b1' b4 b3 show ?thesis by blast
qed




text \<open>
  Claim C6. A selector that passes the validation of \<open>main\<close> (it is neither below 1 nor
  above 4 as a signed 32-bit integer) matches exactly one of the case labels 1, 2, 3, 4, and
  the \<open>switch\<close> does not take the default branch: its outcome differs from the one that
  writes \<open>Invalid choice\<close>. Since \<open>main\<close> only reaches the \<open>switch\<close> with a validated
  selector, no run writes \<open>Invalid choice\<close>.
\<close>

theorem fallback_unreachable:
  fixes c :: "32 word"
  assumes "\<not> (sint c < 1 \<or> sint c > 4)"
  shows "length (matching_labels c) = 1
       \<and> dispatch c a b os \<noteq> (Inr (), endl (put_str ''Invalid choice'' os))
       \<and> Text ''Invalid choice'' \<notin> set (stdout (main fr inp))"
proof (intro conjI)
  from assms have v: "1 \<le> sint c" "sint c \<le> 4" by auto
  then have "c = 1 \<or> c = 2 \<or> c = 3 \<or> c = 4" by (rule valid_selector)
  then show "length (matching_labels c) = 1"
    by (auto simp: matching_labels_def)
  show "dispatch c a b os \<noteq> (Inr (), endl (put_str ''Invalid choice'' os))"
    by (simp add: dispatch_valid [OF v] put_str_def endl_def)
  show "Text ''Invalid choice'' \<notin> set (stdout (main fr inp))"
  proof (cases rule: main_cases [of fr inp])
    case (run c' a' b' cin3)
    then show ?thesis
      by (simp add: try_dispatch_valid prompts_def menu_def)
  qed (simp_all add: prompts_def menu_def)
qed

theorem fallback_unreachable_witness:
  "\<not> (sint (3 :: 32 word) < 1 \<or> sint (3 :: 32 word) > 4)
   \<and> matching_labels 3 = [3]
   \<and> dispatch 3 (Finite False 4) (Finite False (5 / 2)) []
       = (Inr (), [Text ''Result: '', Number (Finite False 10), Endl])
   \<and> Text ''Invalid choice''
       \<notin> set (stdout (main \<lparr>choice = 0, num1 = NaN, num2 = NaN\<rparr> ''3 4 2.5''))"
proof -
  have h: "\<not> (sint (3 :: 32 word) < 1 \<or> sint (3 :: 32 word) > 4)" by simp
  note t = fallback_unreachable [OF h, of "Finite False 4" "Finite False (5 / 2)" "[]"
      "\<lparr>choice = 0, num1 = NaN, num2 = NaN\<rparr>" "''3 4 2.5''"]
  have m: "matching_labels 3 = [3]" by (simp add: matching_labels_def)
  have d: "dispatch 3 (Finite False 4) (Finite False (5 / 2)) []
       = (Inr (), [Text ''Result: '', Number (Finite False 10), Endl])"
    by (simp add: dispatch_def multiply_def put_str_def put_double_def endl_def round_eval)
  from t h m d show ?thesis by blast
qed

text \<open>
  Claim C7. Two runs on the same input stream give the same output, the same exit code and
  leave standard input in the same state, whatever the local variables of \<open>main\<close> hold
  when each run starts. The program reads nothing but its input: the only state that could
  differ between two runs is the uninitialised content of \<open>choice\<close>, \<open>num1\<close> and
  \<open>num2\<close>, and \<open>main\<close> never uses a variable whose extraction failed.
\<close>

theorem runs_deterministic:
  assumes "inp1 = inp2"
  shows "stdout (main fr1 inp1) = stdout (main fr2 inp2)
       \<and> exit_code (main fr1 inp1) = exit_code (main fr2 inp2)
       \<and> stdin (main fr1 inp1) = stdin (main fr2 inp2)"
  using assms main_frame [of fr1 inp1 fr2] by simp

theorem runs_deterministic_witness:
  "stdout (main \<lparr>choice = 0, num1 = NaN, num2 = NaN\<rparr> ''4 10 0'')
     = stdout (main \<lparr>choice = 77, num1 = Infinity True, num2 = Finite False 1\<rparr> ''4 10 0'')
   \<and> exit_code (main \<lparr>choice = 0, num1 = NaN, num2 = NaN\<rparr> ''4 10 0'')
     = exit_code (main \<lparr>choice = 77, num1 = Infinity True, num2 = Finite False 1\<rparr> ''4 10 0'')"
  using runs_deterministic [of "''4 10 0''" "''4 10 0''"
      "\<lparr>choice = 0, num1 = NaN, num2 = NaN\<rparr>"
      "\<lparr>choice = 77, num1 = Infinity True, num2 = Finite False 1\<rparr>"]
  by blast

text \<open>
  Claim C8. \<open>divide\<close> compares its second operand with zero exactly. For every \<open>b\<close>
  that is not a zero, however small, it writes \<open>Result: \<close>, the IEEE quotient and the end
  of line and returns normally; when \<open>b\<close> is a zero it throws the \<open>runtime_error\<close> and
  leaves the output as it was; and it throws only when \<open>b\<close> is a zero. The witness
  divides by the least positive \<open>double\<close>, \<open>2^-1074\<close>.
\<close>

theorem divide_exact_zero_test:
  "(\<not> is_zero b \<longrightarrow>
      divide a b os = (Inr (), os @ [Text ''Result: '', Number (fdiv a b), Endl]))
   \<and> (is_zero b \<longrightarrow>
      divide a b os = (Inl (Runtime_error ''Error! Division by zero.''), os))
   \<and> (fst (divide a b os) = Inl (Runtime_error ''Error! Division by zero.'') \<longrightarrow> is_zero b)"
  by (simp add: divide_eq)

theorem divide_exact_zero_test_witness:
  "\<not> is_zero (Finite False (1 / 2 ^ 1074))
   \<and> divide (Finite False (1 / 2 ^ 1074)) (Finite False (1 / 2 ^ 1074)) []
       = (Inr (), [Text ''Result: '', Number (Finite False 1), Endl])
   \<and> is_zero (Finite False 0)
   \<and> divide (Finite False 1) (Finite False 0) []
       = (Inl (Runtime_error ''Error! Division by zero.''), [])"
proof -
  let ?tiny = "Finite False (1 / 2 ^ 1074)"
  have n: "\<not> is_zero ?tiny" by (simp add: is_zero_def)
  have q: "fdiv ?tiny ?tiny = Finite False 1" by (simp add: round_eval Let_def)
  have z: "is_zero (Finite False 0)" by (simp add: is_zero_def)
  have r1: "divide ?tiny ?tiny [] = (Inr (), [Text ''Result: '', Number (Finite False 1), Endl])"
    using divide_exact_zero_test [of ?tiny ?tiny "[]", THEN conjunct1, THEN mp, OF n]
    by (simp only: q append_Nil)
  have r2: "divide (Finite False 1) (Finite False 0) []
       = (Inl (Runtime_error ''Error! Division by zero.''), [])"
    by (rule divide_exact_zero_test [THEN conjunct2, THEN conjunct1, THEN mp, OF z])
  show ?thesis by (intro conjI n r1 z r2)
qed

text \<open>
  Claim C9. Negative zero equals the \<open>0\<close> of the comparison in \<open>divide\<close>, so
  \<open>divide\<close> throws for it, and a run with selector 4 whose second operand is read as
  \<open>-0.0\<close> writes \<open>Error! Division by zero.\<close> and never the quotient (which would be
  a signed infinity for a nonzero dividend, as the witness shows for \<open>1 / -0.0\<close>).
\<close>

theorem negative_zero_is_division_by_zero:
  assumes "extract_int (cin_start inp) (choice fr) = (cin1, 4)" and "\<not> failbit cin1"
    and "extract_double cin1 (num1 fr) = (cin2, a)" and "\<not> failbit cin2"
    and "extract_double cin2 (num2 fr) = (cin3, Finite True 0)" and "\<not> failbit cin3"
  shows "feq (Finite True 0) (double_of_int 0)
       \<and> divide a (Finite True 0) os = (Inl (Runtime_error ''Error! Division by zero.''), os)
       \<and> stdout (main fr inp) = prompts @ [Text ''Error! Division by zero.'', Endl]
       \<and> Number (fdiv a (Finite True 0)) \<notin> set (stdout (main fr inp))"
proof -
  have z: "is_zero (Finite True 0)" by (simp add: is_zero_def)
  have v: "1 \<le> sint (4 :: 32 word)" "sint (4 :: 32 word) \<le> 4" by simp_all
  have m: "stdout (main fr inp) = prompts @ [Text ''Error! Division by zero.'', Endl]"
    using main_dispatch_path [OF assms(1,2) v assms(3-6)] z
    by (simp add: try_dispatch_valid [OF v])
  have "Number (fdiv a (Finite True 0)) \<notin> set (prompts @ [Text ''Error! Division by zero.'', Endl])"
    by (simp add: prompts_def menu_def)
  with m z show ?thesis by (simp add: feq_zero divide_eq)
qed

theorem negative_zero_is_division_by_zero_witness:
  "extract_double \<lparr>buf = '' -0.0'', failbit = False\<rparr> NaN
       = (\<lparr>buf = [], failbit = False\<rparr>, Finite True 0)
   \<and> fdiv (Finite False 1) (Finite True 0) = Infinity True
   \<and> divide (Finite False 1) (Finite True 0) []
       = (Inl (Runtime_error ''Error! Division by zero.''), [])
   \<and> stdout (main \<lparr>choice = 0, num1 = NaN, num2 = NaN\<rparr> ''4 1 -0.0'')
       = prompts @ [Text ''Error! Division by zero.'', Endl]"
proof -
  let ?fr = "\<lparr>choice = 0, num1 = NaN, num2 = NaN\<rparr>"
  have e1: "extract_int (cin_start ''4 1 -0.0'') (choice ?fr)
      = (\<lparr>buf = '' 1 -0.0'', failbit = False\<rparr>, 4)"
    by (simp add: scan_defs)
  have e2: "extract_double \<lparr>buf = '' 1 -0.0'', failbit = False\<rparr> (num1 ?fr)
      = (\<lparr>buf = '' -0.0'', failbit = False\<rparr>, Finite False 1)"
    by (simp add: scan_defs round_eval)
  have e3: "extract_double \<lparr>buf = '' -0.0'', failbit = False\<rparr> (num2 ?fr)
      = (\<lparr>buf = [], failbit = False\<rparr>, Finite True 0)"
    by (simp add: scan_defs round_eval)
  have ok: "\<not> failbit \<lparr>buf = '' 1 -0.0'', failbit = False\<rparr>"
    "\<not> failbit \<lparr>buf = '' -0.0'', failbit = False\<rparr>"
    "\<not> failbit \<lparr>buf = [], failbit = False\<rparr>"
    by simp_all
  note t = negative_zero_is_division_by_zero [OF e1 ok(1) e2 ok(2) e3 ok(3), of "[]"]
  have i: "fdiv (Finite False 1) (Finite True 0) = Infinity True" by simp
  from e3 have e3': "extract_double \<lparr>buf = '' -0.0'', failbit = False\<rparr> NaN
       = (\<lparr>buf = [], failbit = False\<rparr>, Finite True 0)" by simp
  from t e3' i show ?thesis by blast
qed

text \<open>
  Claim C10. When \<open>divide\<close> throws, standard output is as it was when \<open>divide\<close> was
  called, and the exception carries the text \<open>Error! Division by zero.\<close>. When the
  \<open>switch\<close> throws, it has written nothing, the handler's diagnostic and the end of line
  are all that the \<open>try\<close> statement adds to the output, and no text beginning with
  \<open>Result:\<close> is among it.
\<close>

theorem divide_throws_before_output:
  "(fst (divide a b os) = Inl e \<longrightarrow>
      snd (divide a b os) = os \<and> e = Runtime_error ''Error! Division by zero.'')
   \<and> (fst (dispatch c a b os) = Inl e \<longrightarrow>
      snd (dispatch c a b os) = os
      \<and> try_dispatch c a b os = os @ [Text ''Error! Division by zero.'', Endl]
      \<and> result_count (try_dispatch c a b os) = result_count os)"
proof (intro conjI impI)
  assume "fst (divide a b os) = Inl e"
  then show "snd (divide a b os) = os" "e = Runtime_error ''Error! Division by zero.''"
    by (auto simp: divide_eq split: if_splits)
next
  assume h: "fst (dispatch c a b os) = Inl e"
  then have d: "dispatch c a b os = (Inl (Runtime_error ''Error! Division by zero.''), os)"
    by (auto simp: dispatch_def divide_eq split: if_splits)
  then show "snd (dispatch c a b os) = os" by simp
  from d show t: "try_dispatch c a b os = os @ [Text ''Error! Division by zero.'', Endl]"
    by (simp add: try_dispatch_def put_str_def endl_def)
  show "result_count (try_dispatch c a b os) = result_count os"
    by (simp add: t result_count_append) (simp add: result_count_def)
qed

theorem divide_throws_before_output_witness:
  "fst (divide (Finite False 10) (Finite False 0) prompts)
       = Inl (Runtime_error ''Error! Division by zero.'')
   \<and> snd (divide (Finite False 10) (Finite False 0) prompts) = prompts
   \<and> try_dispatch 4 (Finite False 10) (Finite False 0) prompts
       = prompts @ [Text ''Error! Division by zero.'', Endl]"
proof -
  let ?e = "Runtime_error ''Error! Division by zero.''"
  have z: "feq (Finite False 0) (double_of_int 0)"
    by (simp add: double_of_int_def round_double_def signed_val_def)
  then have a: "fst (divide (Finite False 10) (Finite False 0) prompts) = Inl ?e"
    by (simp add: divide_def)
  from z have b: "fst (dispatch 4 (Finite False 10) (Finite False 0) prompts) = Inl ?e"
    by (simp add: dispatch_def divide_def)
  note t = divide_throws_before_output [of "Finite False 10" "Finite False 0" prompts ?e 4]
  from t a b show ?thesis by blast
qed

end
